theory Spec2Isabelle
  imports Main
begin

section \<open>Strings as the source uses them\<close>

text \<open>
  Python strings are modelled as \<open>string\<close>. The substring test \<^verbatim>\<open>a in b\<close>,
  \<^verbatim>\<open>str.lower\<close> (on ASCII letters) and \<^verbatim>\<open>os.path.splitext\<close> (the POSIX
  version) are written out, since the classification of a URL is computed with them.
\<close>

fun startswith :: "string \<Rightarrow> string \<Rightarrow> bool" where
  "startswith s [] = True"
| "startswith [] (c # cs) = False"
| "startswith (x # xs) (c # cs) = (x = c \<and> startswith xs cs)"

text \<open>\<open>str_in sub s\<close> is Python's \<^verbatim>\<open>sub in s\<close>.\<close>

fun str_in :: "string \<Rightarrow> string \<Rightarrow> bool" where
  "str_in sub [] = (sub = [])"
| "str_in sub (x # xs) = (startswith (x # xs) sub \<or> str_in sub xs)"

definition lower_char :: "char \<Rightarrow> char" where
  "lower_char c =
     (case map_of (zip ''ABCDEFGHIJKLMNOPQRSTUVWXYZ'' ''abcdefghijklmnopqrstuvwxyz'') c of
        Some l \<Rightarrow> l
      | None \<Rightarrow> c)"

definition lower :: "string \<Rightarrow> string" where
  "lower s = map lower_char s"

text \<open>
  \<^verbatim>\<open>os.path.splitext(p)[1]\<close>: the text from the last dot of the last path component,
  unless that component has no dot or consists of leading dots only up to that dot.
\<close>

definition basename :: "string \<Rightarrow> string" where
  "basename p = rev (takeWhile (\<lambda>c. c \<noteq> CHR ''/'') (rev p))"

definition splitext_ext :: "string \<Rightarrow> string" where
  "splitext_ext p =
     (let b = basename p;
          tail = takeWhile (\<lambda>c. c \<noteq> CHR ''.'') (rev b);
          stem = drop (Suc (length tail)) (rev b)
      in if length tail = length b then []
         else if \<forall>c \<in> set stem. c = CHR ''.'' then []
         else CHR ''.'' # rev tail)"

section \<open>The world outside the program\<close>

text \<open>
  Everything the program reads from outside is a field of \<open>world\<close>: the standard
  library's URL functions, and the answers of the network, of the Tor control port and
  of the random generator. Each answer is indexed by the number of interactions the
  process has had so far, so the same request may be answered differently when it is
  repeated. \<open>None\<close> stands for a raised exception.
\<close>

record parsed =
  scheme :: string
  netloc :: string
  path :: string

record response =
  status_code :: int
  content_type :: string
  hrefs :: "string list"

datatype control_reply = ConnectFailed | AuthFailed | SignalFailed | Signalled

record world =
  urlparse :: "string \<Rightarrow> parsed"
  urljoin :: "string \<Rightarrow> string \<Rightarrow> string"
  session_get :: "nat \<Rightarrow> string \<Rightarrow> response option"
  connect_ex :: "nat \<Rightarrow> int option"
  launch_tor_with_config :: "nat \<Rightarrow> bool"
  controller :: "nat \<Rightarrow> string option \<Rightarrow> control_reply"
  random_choice :: "nat \<Rightarrow> nat"
  temp_name :: "nat \<Rightarrow> string"

section \<open>Process-wide state\<close>

datatype event =
    Probe
  | Launch
  | Verify
  | Kill
  | Control
  | Sleep nat
  | NewSession
  | Marked string
  | Fetched string
  | Download string

record process =
  environ :: "string \<rightharpoonup> string"
  socket_patched :: bool
  events :: "event list"

definition now :: "process \<Rightarrow> nat" where
  "now p = length (events p)"

definition emit :: "event \<Rightarrow> process \<Rightarrow> process" where
  "emit e p = p\<lparr>events := events p @ [e]\<rparr>"

fun slept :: "event list \<Rightarrow> nat" where
  "slept [] = 0"
| "slept (Sleep n # es) = n + slept es"
| "slept (e # es) = slept es"

section \<open>anonymous_connection.py: AnonymousConnection\<close>

record http_session =
  headers :: "(string \<times> string) list"

record anon_conn =
  use_tor :: bool
  tor_port :: int
  control_port :: int
  tor_password :: "string option"
  tor_process :: bool
  previous_proxy :: "(string option \<times> string option) option"

definition AnonymousConnection :: "bool \<Rightarrow> int \<Rightarrow> int \<Rightarrow> string option \<Rightarrow> anon_conn" where
  "AnonymousConnection u tp cp pw =
     \<lparr>use_tor = u, tor_port = tp, control_port = cp, tor_password = pw,
      tor_process = False, previous_proxy = None\<rparr>"

text \<open>Python's truth value of an optional string: \<^verbatim>\<open>None\<close> and \<^verbatim>\<open>''\<close> are false.\<close>

fun truthy :: "string option \<Rightarrow> bool" where
  "truthy None = False"
| "truthy (Some v) = (v \<noteq> [])"

fun digit_str :: "nat \<Rightarrow> nat \<Rightarrow> string" where
  "digit_str 0 n = []"
| "digit_str (Suc fuel) n =
     (if n < 10 then [char_of (48 + n)]
      else digit_str fuel (n div 10) @ [char_of (48 + n mod 10)])"

definition str_int :: "int \<Rightarrow> string" where
  "str_int i =
     (if i < 0 then CHR ''-'' # digit_str (Suc (nat (- i))) (nat (- i))
      else digit_str (Suc (nat i)) (nat i))"

definition socks_url :: "anon_conn \<Rightarrow> string" where
  "socks_url c = ''socks5://127.0.0.1:'' @ str_int (tor_port c)"

definition is_tor_running :: "world \<Rightarrow> process \<Rightarrow> bool \<times> process" where
  "is_tor_running w p =
     ((case connect_ex w (now p) of None \<Rightarrow> False | Some r \<Rightarrow> r = 0), emit Probe p)"

text \<open>
  Exceptions that leave a function are values: \<open>Inl\<close> carries the exception together
  with the state in which it leaves, \<open>Inr\<close> is a normal return.
\<close>

datatype error = AttributeError | RecursionError

text \<open>
  \<^verbatim>\<open>_configure_tor_for_requests\<close>. When the connectivity check raises, the handler
  removes the two variables and then evaluates
  \<^verbatim>\<open>socket._socketobject if hasattr(socket, '_socketobject') else socket._orig_socket\<close>.
  The module is Python 3 (it uses f-strings), whose \<^verbatim>\<open>socket\<close> module has neither
  attribute, so \<^verbatim>\<open>AttributeError\<close> leaves the handler there: \<^verbatim>\<open>socket.socket\<close> is
  still the SOCKS class and \<^verbatim>\<open>self.use_tor = False\<close> is not reached.
\<close>

definition configure_tor_for_requests ::
  "world \<Rightarrow> anon_conn \<times> process \<Rightarrow> (error \<times> anon_conn \<times> process) + (anon_conn \<times> process)"
where
  "configure_tor_for_requests w cp =
     (let c = fst cp; p = snd cp;
          p1 = p\<lparr>environ := (environ p)(''HTTP_PROXY'' \<mapsto> socks_url c,
                                          ''HTTPS_PROXY'' \<mapsto> socks_url c),
                 socket_patched := True\<rparr>
      in case session_get w (now p1) ''https://www.google.com'' of
           Some r \<Rightarrow> Inr (c, emit Verify p1)
         | None \<Rightarrow>
             Inl (AttributeError, c,
                  (emit Verify p1)\<lparr>environ := (environ p1)(''HTTP_PROXY'' := None,
                                                           ''HTTPS_PROXY'' := None)\<rparr>))"

definition start_tor ::
  "world \<Rightarrow> bool \<Rightarrow> anon_conn \<times> process \<Rightarrow> (error \<times> anon_conn \<times> process) + (anon_conn \<times> process)"
where
  "start_tor w launch cp =
     (let c = fst cp; p = snd cp in
      if \<not> use_tor c then Inr (c, p)
      else
        let running = is_tor_running w p; p1 = snd running in
        if \<not> fst running then Inr (c\<lparr>use_tor := False\<rparr>, p1)
        else
          let c1 = c\<lparr>previous_proxy :=
                       Some (environ p1 ''HTTP_PROXY'', environ p1 ''HTTPS_PROXY'')\<rparr>
          in if launch then
               (if launch_tor_with_config w (now p1)
                then configure_tor_for_requests w (c1\<lparr>tor_process := True\<rparr>, emit Launch p1)
                else Inr (c1\<lparr>use_tor := False\<rparr>, emit Launch p1))
             else configure_tor_for_requests w (c1, p1))"

text \<open>What raised, if anything, and the state the call leaves behind either way.\<close>

definition raised :: "(error \<times> 'a) + 'b \<Rightarrow> error option" where
  "raised r = (case r of Inl f \<Rightarrow> Some (fst f) | Inr x \<Rightarrow> None)"

definition state_after ::
  "(error \<times> anon_conn \<times> process) + (anon_conn \<times> process) \<Rightarrow> anon_conn \<times> process" where
  "state_after r = (case r of Inl f \<Rightarrow> snd f | Inr cp \<Rightarrow> cp)"

definition restore_var :: "string \<Rightarrow> string option \<Rightarrow> (string \<rightharpoonup> string) \<Rightarrow> (string \<rightharpoonup> string)" where
  "restore_var k v env = (if truthy v then env(k := v) else env(k := None))"

definition stop_tor :: "anon_conn \<times> process \<Rightarrow> anon_conn \<times> process" where
  "stop_tor cp =
     (let c = fst cp; p = snd cp in
      if \<not> use_tor c then (c, p)
      else
        let c1 = (if tor_process c then c\<lparr>tor_process := False\<rparr> else c);
            p1 = (if tor_process c then emit Kill p else p)
        in case previous_proxy c1 of
             None \<Rightarrow> (c1, p1)
           | Some prev \<Rightarrow>
               (c1, p1\<lparr>environ := restore_var ''HTTPS_PROXY'' (snd prev)
                                     (restore_var ''HTTP_PROXY'' (fst prev) (environ p1))\<rparr>))"

definition renew_tor_identity :: "world \<Rightarrow> anon_conn \<times> process \<Rightarrow> anon_conn \<times> process" where
  "renew_tor_identity w cp =
     (let c = fst cp; p = snd cp in
      if \<not> use_tor c then (c, p)
      else
        (case controller w (now p) (if truthy (tor_password c) then tor_password c else None) of
           Signalled \<Rightarrow> (c, emit (Sleep 5) (emit Control p))
         | ConnectFailed \<Rightarrow> (c, emit Control p)
         | AuthFailed \<Rightarrow> (c, emit Control p)
         | SignalFailed \<Rightarrow> (c, emit Control p)))"

definition user_agents :: "string list" where
  "user_agents =
     [''Mozilla/5.0 (Windows NT 10.0; Win64; x64) AppleWebKit/537.36 (KHTML, like Gecko) Chrome/91.0.4472.124 Safari/537.36'',
      ''Mozilla/5.0 (Windows NT 10.0; Win64; x64; rv:89.0) Gecko/20100101 Firefox/89.0'',
      ''Mozilla/5.0 (Macintosh; Intel Mac OS X 10_15_7) AppleWebKit/605.1.15 (KHTML, like Gecko) Version/14.1.1 Safari/605.1.15'',
      ''Mozilla/5.0 (X11; Linux x86_64; rv:89.0) Gecko/20100101 Firefox/89.0'',
      ''Mozilla/5.0 (Windows NT 10.0; Win64; x64) AppleWebKit/537.36 (KHTML, like Gecko) Chrome/91.0.4472.124 Safari/537.36 Edg/91.0.864.59'']"

definition get_random_user_agent :: "world \<Rightarrow> process \<Rightarrow> string" where
  "get_random_user_agent w p = user_agents ! (random_choice w (now p) mod length user_agents)"

definition direct_user_agent :: string where
  "direct_user_agent =
     ''Mozilla/5.0 (Windows NT 10.0; Win64; x64) AppleWebKit/537.36 (KHTML, like Gecko) Chrome/91.0.4472.124 Safari/537.36''"

definition get_session :: "world \<Rightarrow> anon_conn \<times> process \<Rightarrow> http_session \<times> process" where
  "get_session w cp =
     (let c = fst cp; p = snd cp in
      if use_tor c then
        (\<lparr>headers = [(''User-Agent'', get_random_user_agent w p),
                     (''Accept-Language'', ''en-US,en;q=0.5''),
                     (''DNT'', ''1''),
                     (''Upgrade-Insecure-Requests'', ''1'')]\<rparr>, emit NewSession p)
      else (\<lparr>headers = [(''User-Agent'', direct_user_agent)]\<rparr>, emit NewSession p))"

section \<open>docscoop.py: DocScoop\<close>

definition DOCUMENT_EXTENSIONS :: "string list" where
  "DOCUMENT_EXTENSIONS =
     [''.pdf'', ''.txt'', ''.doc'', ''.docx'', ''.rtf'', ''.csv'', ''.xls'', ''.xlsx'']"

definition IGNORE_EXTENSIONS :: "string list" where
  "IGNORE_EXTENSIONS =
     [''.jpg'', ''.jpeg'', ''.png'', ''.gif'', ''.bmp'', ''.svg'', ''.mp4'', ''.avi'', ''.mov'']"

text \<open>
  The two extension lists are class attributes that the command line extends before a
  scan (\<^verbatim>\<open>--include-ext\<close>, \<^verbatim>\<open>--exclude-ext\<close>), so they are fields of the object's state.
\<close>

record scoop =
  visited_urls :: "string set"
  document_urls :: "string set"
  anonymous :: bool
  anonymous_conn :: anon_conn
  session :: http_session
  document_extensions :: "string list"
  ignore_extensions :: "string list"
  proc :: process

text \<open>
  \<^verbatim>\<open>DocScoop.__init__\<close>. An exception of \<open>start_tor\<close> is not handled, so no object is
  returned then.
\<close>

definition DocScoop ::
  "world \<Rightarrow> bool \<Rightarrow> bool \<Rightarrow> int \<Rightarrow> int \<Rightarrow> process \<Rightarrow> (error \<times> anon_conn \<times> process) + scoop"
where
  "DocScoop w tor launch tp cp p =
     (let c0 = AnonymousConnection tor tp cp None in
      case (if tor then start_tor w launch (c0, p) else Inr (c0, p)) of
        Inl failure \<Rightarrow> Inl failure
      | Inr started \<Rightarrow>
          (let made = (if tor then get_session w started else (\<lparr>headers = []\<rparr>, snd started))
           in Inr \<lparr>visited_urls = {}, document_urls = {}, anonymous = tor,
                   anonymous_conn = fst started, session = fst made,
                   document_extensions = DOCUMENT_EXTENSIONS,
                   ignore_extensions = IGNORE_EXTENSIONS,
                   proc = snd made\<rparr>))"

definition is_valid_url :: "world \<Rightarrow> scoop \<Rightarrow> string \<Rightarrow> bool" where
  "is_valid_url w s url =
     (netloc (urlparse w url) \<noteq> [] \<and> scheme (urlparse w url) \<noteq> [] \<and> url \<notin> visited_urls s)"

definition get_file_extension :: "world \<Rightarrow> string \<Rightarrow> string" where
  "get_file_extension w url = lower (splitext_ext (path (urlparse w url)))"

definition is_document_url :: "world \<Rightarrow> scoop \<Rightarrow> string \<Rightarrow> bool" where
  "is_document_url w s url = (get_file_extension w url \<in> set (document_extensions s))"

definition should_ignore_url :: "world \<Rightarrow> scoop \<Rightarrow> string \<Rightarrow> bool" where
  "should_ignore_url w s url = (get_file_extension w url \<in> set (ignore_extensions s))"

definition mark_visited :: "string \<Rightarrow> scoop \<Rightarrow> scoop" where
  "mark_visited url s =
     s\<lparr>visited_urls := insert url (visited_urls s), proc := emit (Marked url) (proc s)\<rparr>"

definition add_document :: "string \<Rightarrow> scoop \<Rightarrow> scoop" where
  "add_document url s = s\<lparr>document_urls := insert url (document_urls s)\<rparr>"

definition log_event :: "event \<Rightarrow> scoop \<Rightarrow> scoop" where
  "log_event e s = s\<lparr>proc := emit e (proc s)\<rparr>"

text \<open>
  The two statements of both exception handlers:
  \<^verbatim>\<open>self.anonymous_conn.renew_tor_identity(); self.session = self.anonymous_conn.get_session()\<close>.
\<close>

definition renew_and_get_session :: "world \<Rightarrow> scoop \<Rightarrow> scoop" where
  "renew_and_get_session w s =
     (let renewed = renew_tor_identity w (anonymous_conn s, proc s);
          made = get_session w renewed
      in s\<lparr>anonymous_conn := fst renewed, session := fst made, proc := snd made\<rparr>)"

definition document_content_type :: "string \<Rightarrow> bool" where
  "document_content_type ct =
     (str_in ''application/pdf'' ct \<or> str_in ''application/msword'' ct
      \<or> str_in ''application/vnd.openxmlformats'' ct)"

text \<open>
  \<open>crawl_page\<close> and the loop over the links of a page, \<open>crawl_links\<close>. The request
  is the operation that raises: \<^verbatim>\<open>urlparse\<close> and \<^verbatim>\<open>urljoin\<close> are taken as total.
  The handler's call of \<open>crawl_page\<close> is the first recursive call below; the depth is
  the same there, and the call ends because the URL is in the frontier by then.
\<close>

function crawl_page :: "world \<Rightarrow> string \<Rightarrow> int \<Rightarrow> int \<Rightarrow> scoop \<Rightarrow> scoop"
  and crawl_links :: "world \<Rightarrow> string \<Rightarrow> string list \<Rightarrow> int \<Rightarrow> int \<Rightarrow> scoop \<Rightarrow> scoop"
where
  "crawl_page w url depth max_depth s =
     (if depth > max_depth \<or> \<not> is_valid_url w s url then s
      else
        (case session_get w (now (proc (mark_visited url s))) url of
           None \<Rightarrow>
             (if anonymous s \<and> depth \<le> 1
              then crawl_page w url depth max_depth
                     (renew_and_get_session w (log_event (Fetched url) (mark_visited url s)))
              else log_event (Fetched url) (mark_visited url s))
         | Some r \<Rightarrow>
             (if status_code r \<noteq> 200 then log_event (Fetched url) (mark_visited url s)
              else if is_document_url w s url \<or> document_content_type (content_type r)
              then add_document url (log_event (Fetched url) (mark_visited url s))
              else if str_in ''text/html'' (content_type r)
              then crawl_links w url (hrefs r) depth max_depth
                     (log_event (Fetched url) (mark_visited url s))
              else log_event (Fetched url) (mark_visited url s))))"
| "crawl_links w url [] depth max_depth s = s"
| "crawl_links w url (href # rest) depth max_depth s =
     (if should_ignore_url w s (urljoin w url href)
      then crawl_links w url rest depth max_depth s
      else if is_document_url w s (urljoin w url href)
      then crawl_links w url rest depth max_depth (add_document (urljoin w url href) s)
      else if depth < max_depth
      then crawl_links w url rest depth max_depth
             (crawl_page w (urljoin w url href) (depth + 1) max_depth s)
      else crawl_links w url rest depth max_depth s)"
  by pat_completeness auto
termination
proof (relation "inv_image (less_than <*lex*> less_than)
    (\<lambda>x. case x of
       Inl (w, url, depth, max_depth, s) \<Rightarrow>
         (nat (max_depth + 1 - depth), if url \<in> visited_urls s then 0 else (1::nat))
     | Inr (w, url, links, depth, max_depth, s) \<Rightarrow>
         (nat (max_depth - depth), Suc (length links)))")
qed (auto simp: is_valid_url_def renew_and_get_session_def log_event_def mark_visited_def
    Let_def)

declare crawl_page.simps [simp del]

text \<open>Step 1 of \<^verbatim>\<open>scan_url\<close>: the crawl starts at the default depth 1.\<close>

definition scan_url_crawl :: "world \<Rightarrow> string \<Rightarrow> int \<Rightarrow> scoop \<Rightarrow> scoop" where
  "scan_url_crawl w start_url max_depth s = crawl_page w start_url 1 max_depth s"

text \<open>
  The suffix of the temporary file: the extension of the URL's path, or one chosen from
  the declared content type when the path has none.
\<close>

definition download_suffix :: "world \<Rightarrow> string \<Rightarrow> string \<Rightarrow> string" where
  "download_suffix w url ct =
     (if get_file_extension w url = [] then
        (if str_in ''application/pdf'' ct then ''.pdf''
         else if str_in ''application/msword'' ct then ''.doc''
         else if str_in ''application/vnd.openxmlformats'' ct then ''.docx''
         else ''.txt'')
      else get_file_extension w url)"

text \<open>
  \<^verbatim>\<open>download_document\<close> calls itself from its exception handler, and nothing in the
  code bounds the number of calls. What ends them is the interpreter: \<open>stack\<close> is the
  number of nested calls its recursion limit still allows, and a call that cannot be
  made raises \<^verbatim>\<open>RecursionError\<close> in the handler of the caller, which no handler on
  the way out catches. \<open>Inr (None, s)\<close> is the Python result \<^verbatim>\<open>None\<close> and
  \<open>Inr (Some p, s)\<close> the path of the temporary file.
\<close>

fun download_document ::
  "world \<Rightarrow> string \<Rightarrow> nat \<Rightarrow> scoop \<Rightarrow> (error \<times> scoop) + (string option \<times> scoop)"
where
  "download_document w url 0 s = Inl (RecursionError, s)"
| "download_document w url (Suc stack) s =
     (case session_get w (now (proc s)) url of
        None \<Rightarrow>
          (if anonymous s
           then download_document w url stack
                  (renew_and_get_session w (log_event (Download url) s))
           else Inr (None, log_event (Download url) s))
      | Some r \<Rightarrow>
          (if status_code r \<noteq> 200 then Inr (None, log_event (Download url) s)
           else Inr (Some (temp_name w (now (proc s)) @ download_suffix w url (content_type r)),
                     log_event (Download url) s)))"

definition scoop_after :: "(error \<times> scoop) + (string option \<times> scoop) \<Rightarrow> scoop" where
  "scoop_after r = (case r of Inl f \<Rightarrow> snd f | Inr x \<Rightarrow> snd x)"

text \<open>
  What the handler of \<open>download_document\<close> adds to the log between two requests: the
  visit to the control port, with the sleep when the signal was sent, if the transport
  is active; then the new session.
\<close>

definition retry_events :: "world \<Rightarrow> scoop \<Rightarrow> event list" where
  "retry_events w s =
     (if use_tor (anonymous_conn s)
      then (if controller w (Suc (now (proc s)))
                 (if truthy (tor_password (anonymous_conn s))
                  then tor_password (anonymous_conn s) else None) = Signalled
            then [Control, Sleep 5, NewSession] else [Control, NewSession])
      else [NewSession])"

section \<open>Reading the event log\<close>

definition new_events :: "scoop \<Rightarrow> scoop \<Rightarrow> event list" where
  "new_events s s' = drop (length (events (proc s))) (events (proc s'))"

fun fetches :: "event list \<Rightarrow> string list" where
  "fetches [] = []"
| "fetches (Fetched u # es) = u # fetches es"
| "fetches (e # es) = fetches es"

fun marks :: "event list \<Rightarrow> string list" where
  "marks [] = []"
| "marks (Marked u # es) = u # marks es"
| "marks (e # es) = marks es"

text \<open>
  \<open>marked_before_fetch V es\<close>: reading \<open>es\<close> from the left with \<open>V\<close> the URLs marked
  so far, every network call of the crawl is for a URL that has been marked already.
\<close>

fun marked_before_fetch :: "string set \<Rightarrow> event list \<Rightarrow> bool" where
  "marked_before_fetch V [] = True"
| "marked_before_fetch V (Marked u # es) = marked_before_fetch (insert u V) es"
| "marked_before_fetch V (Fetched u # es) = (u \<in> V \<and> marked_before_fetch V es)"
| "marked_before_fetch V (e # es) = marked_before_fetch V es"

text \<open>
  \<open>paired V es\<close>: in \<open>es\<close>, every marking is of a URL that is new to the frontier
  (\<open>V\<close>, extended by the markings read so far) and is followed at once by the network
  call for that URL, and there is no other network call of the crawl.
\<close>

fun paired :: "string set \<Rightarrow> event list \<Rightarrow> bool" where
  "paired V [] = True"
| "paired V (Marked u # Fetched u' # es) = (u \<notin> V \<and> u' = u \<and> paired (insert u V) es)"
| "paired V (Marked u # es) = False"
| "paired V (Fetched u # es) = False"
| "paired V (e # es) = paired V es"

text \<open>
  What one call of the crawl may change: the configuration is kept, the document set
  and the log only grow, and the frontier grows by exactly the URLs marked in the log.
\<close>

definition crawl_rel :: "scoop \<Rightarrow> scoop \<Rightarrow> bool" where
  "crawl_rel s s' \<longleftrightarrow>
     anonymous s' = anonymous s \<and>
     document_extensions s' = document_extensions s \<and>
     ignore_extensions s' = ignore_extensions s \<and>
     document_urls s \<subseteq> document_urls s' \<and>
     (\<exists>new. events (proc s') = events (proc s) @ new \<and> paired (visited_urls s) new
        \<and> visited_urls s' = visited_urls s \<union> set (marks new))"

text \<open>
  \<open>ignore_rel w X s s'\<close>: from \<open>s\<close> to \<open>s'\<close> the ignore list is kept, and every URL
  with an ignored extension that is in the frontier or the document set of \<open>s'\<close> was
  already there in \<open>s\<close> or is one of \<open>X\<close>.
\<close>

definition ignore_rel :: "world \<Rightarrow> string set \<Rightarrow> scoop \<Rightarrow> scoop \<Rightarrow> bool" where
  "ignore_rel w X s s' \<longleftrightarrow>
     ignore_extensions s' = ignore_extensions s \<and>
     (\<forall>u \<in> visited_urls s' \<union> document_urls s'.
        should_ignore_url w s u \<longrightarrow> u \<in> visited_urls s \<union> document_urls s \<union> X)"

section \<open>Example worlds\<close>

text \<open>
  Concrete inputs on which the theorems below are exercised. The site is
  \<^verbatim>\<open>http://a.com\<close>; \<open>site_urlparse\<close> and \<open>site_urljoin\<close> are what
  \<^verbatim>\<open>urllib.parse\<close> returns for its URLs without query, fragment or parameters, and for
  links written as absolute paths.
\<close>

definition site_urlparse :: "string \<Rightarrow> parsed" where
  "site_urlparse u =
     (if startswith u ''http://a.com''
      then \<lparr>scheme = ''http'', netloc = ''a.com'', path = drop 12 u\<rparr>
      else \<lparr>scheme = [], netloc = [], path = u\<rparr>)"

definition site_urljoin :: "string \<Rightarrow> string \<Rightarrow> string" where
  "site_urljoin base href = (if startswith href ''/'' then ''http://a.com'' @ href else href)"

definition site_world :: "(nat \<Rightarrow> string \<Rightarrow> response option) \<Rightarrow> world" where
  "site_world get =
     \<lparr>urlparse = site_urlparse, urljoin = site_urljoin, session_get = get,
      connect_ex = (\<lambda>t. Some 0), launch_tor_with_config = (\<lambda>t. True),
      controller = (\<lambda>t pw. Signalled), random_choice = (\<lambda>t. 0),
      temp_name = (\<lambda>t. ''/tmp/tmpdoc'')\<rparr>"

definition fresh_process :: process where
  "fresh_process = \<lparr>environ = Map.empty, socket_patched = False, events = []\<rparr>"

definition site_get :: "nat \<Rightarrow> string \<Rightarrow> response option" where
  "site_get t u =
     (if u = ''http://a.com/''
      then Some \<lparr>status_code = 200, content_type = ''text/html; charset=utf-8'',
                 hrefs = [''/report.pdf'', ''/photo.jpg'', ''/about'']\<rparr>
      else if u = ''http://a.com/about''
      then Some \<lparr>status_code = 200, content_type = ''text/html'',
                 hrefs = [''/'', ''/missing'']\<rparr>
      else if u = ''http://a.com/missing''
      then Some \<lparr>status_code = 404, content_type = ''text/html'', hrefs = []\<rparr>
      else None)"

text \<open>The object \<^verbatim>\<open>DocScoop()\<close> on that site.\<close>

definition plain_scoop :: scoop where
  "plain_scoop =
     \<lparr>visited_urls = {}, document_urls = {}, anonymous = False,
      anonymous_conn = AnonymousConnection False 9050 9051 None, session = \<lparr>headers = []\<rparr>,
      document_extensions = DOCUMENT_EXTENSIONS, ignore_extensions = IGNORE_EXTENSIONS,
      proc = fresh_process\<rparr>"

definition tor_conn :: anon_conn where
  "tor_conn = AnonymousConnection True 9050 9051 None"

definition corp_process :: process where
  "corp_process =
     \<lparr>environ = [''HTTP_PROXY'' \<mapsto> ''http://corp:8080''], socket_patched = False, events = []\<rparr>"

definition ok_response :: response where
  "ok_response = \<lparr>status_code = 200, content_type = ''text/html'', hrefs = []\<rparr>"

text \<open>
  A network on which the connectivity check succeeds and \<^verbatim>\<open>http://a.com/report\<close>
  raises on every request before the process's fifth interaction and is a PDF afterwards.
\<close>

definition flaky_get :: "nat \<Rightarrow> string \<Rightarrow> response option" where
  "flaky_get t u =
     (if u = ''https://www.google.com'' then Some ok_response
      else if u = ''http://a.com/report'' \<and> 5 \<le> t
      then Some \<lparr>status_code = 200, content_type = ''application/pdf'', hrefs = []\<rparr>
      else None)"

text \<open>The object \<^verbatim>\<open>DocScoop(use_tor=True)\<close> on that network, Tor reachable.\<close>

definition tor_scoop :: scoop where
  "tor_scoop =
     \<lparr>visited_urls = {}, document_urls = {}, anonymous = True,
      anonymous_conn = tor_conn\<lparr>previous_proxy := Some (None, None)\<rparr>,
      session = \<lparr>headers = [(''User-Agent'', user_agents ! 0),
                             (''Accept-Language'', ''en-US,en;q=0.5''),
                             (''DNT'', ''1''),
                             (''Upgrade-Insecure-Requests'', ''1'')]\<rparr>,
      document_extensions = DOCUMENT_EXTENSIONS, ignore_extensions = IGNORE_EXTENSIONS,
      proc = \<lparr>environ = [''HTTP_PROXY'' \<mapsto> socks_url tor_conn,
                          ''HTTPS_PROXY'' \<mapsto> socks_url tor_conn],
               socket_patched = True, events = [Probe, Verify, NewSession]\<rparr>\<rparr>"

text \<open>
  A network on which the SOCKS port refuses the connection and every request raises,
  and the object \<^verbatim>\<open>DocScoop(use_tor=True)\<close> there: Tor was asked for and is not in use.
\<close>

definition dead_world :: world where
  "dead_world = (site_world (\<lambda>t u. None))\<lparr>connect_ex := (\<lambda>t. Some 111)\<rparr>"

definition fallback_scoop :: scoop where
  "fallback_scoop =
     \<lparr>visited_urls = {}, document_urls = {}, anonymous = True,
      anonymous_conn = tor_conn\<lparr>use_tor := False\<rparr>,
      session = \<lparr>headers = [(''User-Agent'', direct_user_agent)]\<rparr>,
      document_extensions = DOCUMENT_EXTENSIONS, ignore_extensions = IGNORE_EXTENSIONS,
      proc = \<lparr>environ = Map.empty, socket_patched = False, events = [Probe, NewSession]\<rparr>\<rparr>"

text \<open>A process in which \<^verbatim>\<open>HTTP_PROXY\<close> is set to the empty string.\<close>

definition blank_process :: process where
  "blank_process = \<lparr>environ = [''HTTP_PROXY'' \<mapsto> []], socket_patched = False, events = []\<rparr>"

text \<open>
  A site entered as \<^verbatim>\<open>http://a.com\<close> whose page links to \<^verbatim>\<open>/\<close>, the same page
  under its other spelling.
\<close>

definition root_get :: "nat \<Rightarrow> string \<Rightarrow> response option" where
  "root_get t u =
     (if u = ''http://a.com''
      then Some \<lparr>status_code = 200, content_type = ''text/html'', hrefs = [''/'']\<rparr>
      else if u = ''http://a.com/''
      then Some \<lparr>status_code = 200, content_type = ''text/html'', hrefs = [''/'']\<rparr>
      else None)"

text \<open>
  The object after \<^verbatim>\<open>--include-ext jpg\<close>: \<^verbatim>\<open>.jpg\<close> is in both extension lists.
\<close>

definition jpg_scoop :: scoop where
  "jpg_scoop = plain_scoop\<lparr>document_extensions := DOCUMENT_EXTENSIONS @ [''.jpg'']\<rparr>"

section \<open>The crawl: frontier, log and configuration\<close>

lemma paired_append:
  "paired V a \<Longrightarrow> paired (V \<union> set (marks a)) b \<Longrightarrow> paired V (a @ b)"
  by (induction V a rule: paired.induct) simp_all

lemma marks_append: "marks (a @ b) = marks a @ marks b"
  by (induction a rule: marks.induct) simp_all

lemma fetches_append: "fetches (a @ b) = fetches a @ fetches b"
  by (induction a rule: fetches.induct) simp_all

lemma crawl_rel_refl: "crawl_rel s s"
  by (simp add: crawl_rel_def)

lemma crawl_rel_trans:
  assumes ab: "crawl_rel a b" and bc: "crawl_rel b c"
  shows "crawl_rel a c"
proof -
  from ab obtain n1 where n1: "events (proc b) = events (proc a) @ n1"
    "paired (visited_urls a) n1" "visited_urls b = visited_urls a \<union> set (marks n1)"
    by (auto simp: crawl_rel_def)
  from bc obtain n2 where n2: "events (proc c) = events (proc b) @ n2"
    "paired (visited_urls b) n2" "visited_urls c = visited_urls b \<union> set (marks n2)"
    by (auto simp: crawl_rel_def)
  have "events (proc c) = events (proc a) @ (n1 @ n2)"
    using n1(1) n2(1) by simp
  moreover have "paired (visited_urls a) (n1 @ n2)"
    using n1(2,3) n2(2) by (simp add: paired_append)
  moreover have "visited_urls c = visited_urls a \<union> set (marks (n1 @ n2))"
    using n1(3) n2(3) by (simp add: marks_append Un_assoc)
  ultimately have "\<exists>new. events (proc c) = events (proc a) @ new
      \<and> paired (visited_urls a) new \<and> visited_urls c = visited_urls a \<union> set (marks new)"
    by blast
  moreover have "document_urls a \<subseteq> document_urls c"
    using ab bc unfolding crawl_rel_def by blast
  ultimately show ?thesis
    using ab bc unfolding crawl_rel_def by simp
qed

lemma crawl_rel_fetch:
  "url \<notin> visited_urls s \<Longrightarrow> crawl_rel s (log_event (Fetched url) (mark_visited url s))"
  by (simp add: crawl_rel_def log_event_def mark_visited_def emit_def)

lemma crawl_rel_add_document: "crawl_rel s (add_document u s)"
  by (auto simp: crawl_rel_def add_document_def)

lemma crawl_rel_renew: "crawl_rel s (renew_and_get_session w s)"
  by (auto simp: crawl_rel_def renew_and_get_session_def renew_tor_identity_def get_session_def
      Let_def emit_def split: control_reply.splits)

lemma crawl_page_visited: "url \<in> visited_urls s \<Longrightarrow> crawl_page w url depth max_depth s = s"
  by (simp add: crawl_page.simps is_valid_url_def)

lemma crawl_rel_crawl:
  "crawl_rel s (crawl_page w url depth max_depth s)"
  "crawl_rel s (crawl_links w url links depth max_depth s)"
proof (induction w url depth max_depth s and w url links depth max_depth s
    rule: crawl_page_crawl_links.induct)
  case (1 w url depth max_depth s)
  let ?s2 = "log_event (Fetched url) (mark_visited url s)"
  show ?case
  proof (cases "depth > max_depth \<or> \<not> is_valid_url w s url")
    case True
    then show ?thesis by (simp add: crawl_page.simps crawl_rel_refl)
  next
    case False
    then have fresh: "url \<notin> visited_urls s" by (simp add: is_valid_url_def)
    have step: "crawl_rel s ?s2" using fresh by (rule crawl_rel_fetch)
    show ?thesis
    proof (cases "session_get w (now (proc (mark_visited url s))) url")
      case None
      have "crawl_page w url depth max_depth (renew_and_get_session w ?s2) = renew_and_get_session w ?s2"
        by (rule crawl_page_visited) (simp add: renew_and_get_session_def Let_def log_event_def mark_visited_def)
      moreover have "crawl_rel s (renew_and_get_session w ?s2)"
        using step crawl_rel_renew by (rule crawl_rel_trans)
      ultimately show ?thesis using False None step
        by (simp add: crawl_page.simps)
    next
      case (Some r)
      have "crawl_rel s (add_document url ?s2)"
        using step crawl_rel_add_document by (rule crawl_rel_trans)
      moreover have "crawl_rel s (crawl_links w url (hrefs r) depth max_depth ?s2)"
        if "status_code r = 200" "\<not> (is_document_url w s url \<or> document_content_type (content_type r))"
           "str_in ''text/html'' (content_type r)"
        using step "1.IH"(2)[OF False Some _ that(2,3)] that(1) by (auto intro: crawl_rel_trans)
      ultimately show ?thesis using False Some step
        by (simp add: crawl_page.simps)
    qed
  qed
next
  case (2 w url depth max_depth s)
  then show ?case by (simp add: crawl_rel_refl)
next
  case (3 w url href rest depth max_depth s)
  let ?n = "urljoin w url href"
  show ?case
  proof (cases "should_ignore_url w s ?n")
    case True
    then show ?thesis using "3.IH"(1) by simp
  next
    case ign: False
    show ?thesis
    proof (cases "is_document_url w s ?n")
      case True
      then show ?thesis using ign "3.IH"(2) crawl_rel_add_document
        by (auto intro: crawl_rel_trans)
    next
      case doc: False
      show ?thesis
      proof (cases "depth < max_depth")
        case True
        then show ?thesis using ign doc "3.IH"(3,4)
          by (auto intro: crawl_rel_trans)
      next
        case False
        then show ?thesis using ign doc "3.IH"(5) by simp
      qed
    qed
  qed
qed

lemma paired_marked_before_fetch: "paired V es \<Longrightarrow> marked_before_fetch V' es"
  by (induction V es arbitrary: V' rule: paired.induct) simp_all

lemma paired_fetches: "paired V es \<Longrightarrow> fetches es = marks es"
  by (induction V es rule: paired.induct) simp_all

lemma paired_fresh: "paired V es \<Longrightarrow> set (marks es) \<inter> V = {}"
  by (induction V es rule: paired.induct) auto

lemma paired_distinct: "paired V es \<Longrightarrow> distinct (marks es)"
proof (induction V es rule: paired.induct)
  case (2 V u u' es)
  then have "paired (insert u V) es" by simp
  then have "set (marks es) \<inter> insert u V = {}" by (rule paired_fresh)
  with 2 show ?case by auto
qed simp_all

lemma crawl_page_log:
  obtains new where
    "events (proc (crawl_page w url depth max_depth s)) = events (proc s) @ new"
    "new_events s (crawl_page w url depth max_depth s) = new"
    "paired (visited_urls s) new"
    "visited_urls (crawl_page w url depth max_depth s) = visited_urls s \<union> set (marks new)"
proof -
  have "crawl_rel s (crawl_page w url depth max_depth s)" by (rule crawl_rel_crawl)
  then obtain new where
    "events (proc (crawl_page w url depth max_depth s)) = events (proc s) @ new"
    "paired (visited_urls s) new"
    "visited_urls (crawl_page w url depth max_depth s) = visited_urls s \<union> set (marks new)"
    by (auto simp: crawl_rel_def)
  then show thesis using that by (simp add: new_events_def)
qed

section \<open>Evaluating the example worlds\<close>

lemmas eval_defs = is_valid_url_def is_document_url_def should_ignore_url_def
  get_file_extension_def splitext_ext_def basename_def lower_def lower_char_def
  site_world_def site_urlparse_def site_urljoin_def site_get_def
  mark_visited_def log_event_def add_document_def emit_def now_def
  document_content_type_def DOCUMENT_EXTENSIONS_def IGNORE_EXTENSIONS_def
  renew_and_get_session_def renew_tor_identity_def get_session_def Let_def

lemma plain_scoop_eq:
  "plain_scoop = \<lparr>visited_urls = {}, document_urls = {}, anonymous = False,
      anonymous_conn = AnonymousConnection False 9050 9051 None, session = \<lparr>headers = []\<rparr>,
      document_extensions = DOCUMENT_EXTENSIONS, ignore_extensions = IGNORE_EXTENSIONS,
      proc = fresh_process\<rparr>"
  by (simp add: plain_scoop_def)

text \<open>The example objects are the ones the constructor returns.\<close>

lemma DocScoop_plain:
  "DocScoop (site_world site_get) False False 9050 9051 fresh_process = Inr plain_scoop"
  by (simp add: DocScoop_def plain_scoop_def)

lemma DocScoop_tor:
  "DocScoop (site_world flaky_get) True False 9050 9051 fresh_process = Inr tor_scoop"
  by (simp add: tor_scoop_def DocScoop_def AnonymousConnection_def start_tor_def tor_conn_def
      is_tor_running_def configure_tor_for_requests_def get_session_def Let_def emit_def now_def
      site_world_def flaky_get_def fresh_process_def get_random_user_agent_def user_agents_def
      socks_url_def)

lemma DocScoop_fallback:
  "DocScoop dead_world True False 9050 9051 fresh_process = Inr fallback_scoop"
  by (simp add: fallback_scoop_def dead_world_def DocScoop_def AnonymousConnection_def
      start_tor_def tor_conn_def is_tor_running_def get_session_def Let_def emit_def now_def
      site_world_def fresh_process_def)

lemma tor_scoop_facts:
  "anonymous tor_scoop" "use_tor (anonymous_conn tor_scoop)"
  "events (proc tor_scoop) = [Probe, Verify, NewSession]"
  "visited_urls tor_scoop = {}" "document_urls tor_scoop = {}"
  by (simp_all add: tor_scoop_def tor_conn_def AnonymousConnection_def)

lemmas tor_scoop_eq = tor_scoop_def

section \<open>The frontier\<close>

text \<open>
  Claim C1. In every call of \<open>crawl_page\<close> the log only grows; every network call of
  the crawl is for a URL that was marked visited earlier in the same call; the frontier
  only grows; a URL that is in the frontier is not valid, crawling it again changes
  nothing, and the call makes no network call for it; and no URL is fetched twice.
\<close>

theorem frontier_marked_before_fetch:
  "events (proc (crawl_page w url depth max_depth s))
     = events (proc s) @ new_events s (crawl_page w url depth max_depth s)
   \<and> marked_before_fetch {} (new_events s (crawl_page w url depth max_depth s))
   \<and> visited_urls s \<subseteq> visited_urls (crawl_page w url depth max_depth s)
   \<and> (\<forall>u \<in> visited_urls s. \<not> is_valid_url w s u \<and> crawl_page w u d m s = s
         \<and> u \<notin> set (fetches (new_events s (crawl_page w url depth max_depth s))))
   \<and> distinct (fetches (new_events s (crawl_page w url depth max_depth s)))"
proof -
  obtain new where new:
    "events (proc (crawl_page w url depth max_depth s)) = events (proc s) @ new"
    "new_events s (crawl_page w url depth max_depth s) = new"
    "paired (visited_urls s) new"
    "visited_urls (crawl_page w url depth max_depth s) = visited_urls s \<union> set (marks new)"
    by (rule crawl_page_log)
  have "marked_before_fetch {} new" using new(3) by (rule paired_marked_before_fetch)
  moreover have "set (fetches new) \<inter> visited_urls s = {}"
    using new(3) by (simp add: paired_fetches paired_fresh)
  moreover have "distinct (fetches new)"
    using new(3) by (simp add: paired_fetches paired_distinct)
  moreover have "\<forall>u \<in> visited_urls s. \<not> is_valid_url w s u \<and> crawl_page w u d m s = s"
    by (simp add: is_valid_url_def crawl_page_visited)
  ultimately show ?thesis using new(1,2,4) by auto
qed

theorem frontier_marked_before_fetch_witness:
  "fetches (new_events plain_scoop (crawl_page (site_world site_get) ''http://a.com/'' 1 2 plain_scoop))
     = [''http://a.com/'', ''http://a.com/about'']
   \<and> marked_before_fetch {}
        (new_events plain_scoop (crawl_page (site_world site_get) ''http://a.com/'' 1 2 plain_scoop))
   \<and> visited_urls (crawl_page (site_world site_get) ''http://a.com/'' 1 2 plain_scoop)
        = {''http://a.com/about'', ''http://a.com/''}
   \<and> distinct (fetches (new_events plain_scoop
        (crawl_page (site_world site_get) ''http://a.com/'' 1 2 plain_scoop)))"
proof -
  have ev: "events (proc (crawl_page (site_world site_get) ''http://a.com/'' 1 2 plain_scoop)) =
     [Marked ''http://a.com/'', Fetched ''http://a.com/'',
      Marked ''http://a.com/about'', Fetched ''http://a.com/about'']"
    by (simp add: plain_scoop_eq fresh_process_def crawl_page.simps eval_defs)
  have vis: "visited_urls (crawl_page (site_world site_get) ''http://a.com/'' 1 2 plain_scoop)
        = {''http://a.com/about'', ''http://a.com/''}"
    by (simp add: plain_scoop_eq fresh_process_def crawl_page.simps eval_defs)
  have "events (proc plain_scoop) = []" by (simp add: plain_scoop_eq fresh_process_def)
  then have "fetches (new_events plain_scoop (crawl_page (site_world site_get) ''http://a.com/'' 1 2 plain_scoop))
     = [''http://a.com/'', ''http://a.com/about'']"
    by (simp add: new_events_def ev)
  then show ?thesis
    using vis frontier_marked_before_fetch [of "site_world site_get" "''http://a.com/''" 1 2 plain_scoop]
    by simp
qed

section \<open>The depth bound\<close>

text \<open>
  Claim C3, as amended. \<^verbatim>\<open>scan_url\<close> starts the crawl at depth 1, and
  \<open>crawl_page\<close> returns at once when the depth exceeds \<open>max_depth\<close>. With
  \<open>max_depth = 0\<close> the crawl therefore changes nothing: no URL is fetched, the seed
  included, valid or not, and no link is extracted.
\<close>

theorem max_depth_zero_fetches_nothing:
  "scan_url_crawl w start_url 0 s = s
   \<and> fetches (new_events s (scan_url_crawl w start_url 0 s)) = []"
  by (simp add: scan_url_crawl_def crawl_page.simps new_events_def)

theorem max_depth_zero_fetches_nothing_witness:
  "scan_url_crawl (site_world site_get) ''http://a.com/'' 0 plain_scoop = plain_scoop
   \<and> visited_urls (scan_url_crawl (site_world site_get) ''http://a.com/'' 0 plain_scoop) = {}"
  using max_depth_zero_fetches_nothing [of "site_world site_get" "''http://a.com/''" plain_scoop]
  by (simp add: plain_scoop_eq)

text \<open>
  Claim C3 as stated fails: the seed \<^verbatim>\<open>http://a.com/\<close> is valid and the network
  would answer it, yet with \<open>max_depth = 0\<close> the seed is not fetched.
\<close>

theorem max_depth_zero_seed_not_fetched:
  "is_valid_url (site_world site_get) plain_scoop ''http://a.com/''
   \<and> session_get (site_world site_get) 1 ''http://a.com/'' \<noteq> None
   \<and> fetches (new_events plain_scoop
        (scan_url_crawl (site_world site_get) ''http://a.com/'' 0 plain_scoop))
       \<noteq> [''http://a.com/'']"
  by (simp add: scan_url_crawl_def crawl_page.simps new_events_def plain_scoop_eq eval_defs)

section \<open>Identity rotation\<close>

text \<open>
  Claim C5, as amended. With the transport active, \<open>renew_tor_identity\<close> sleeps its
  5 seconds exactly when the control connection, the authentication and the
  \<^verbatim>\<open>NEWNYM\<close> signal all succeed. When any of them fails it returns without sleeping;
  in every case the connection object and the environment are as before.
\<close>

theorem renew_delay_only_when_signalled:
  "use_tor c \<Longrightarrow>
     fst (renew_tor_identity w (c, p)) = c
     \<and> environ (snd (renew_tor_identity w (c, p))) = environ p
     \<and> slept (drop (length (events p)) (events (snd (renew_tor_identity w (c, p)))))
         = (if controller w (now p) (if truthy (tor_password c) then tor_password c else None)
               = Signalled
            then 5 else 0)"
  by (auto simp: renew_tor_identity_def emit_def Let_def split: control_reply.splits)

theorem renew_delay_only_when_signalled_witness:
  "use_tor tor_conn
   \<and> slept (drop (length (events fresh_process))
        (events (snd (renew_tor_identity (site_world site_get) (tor_conn, fresh_process))))) = 5"
proof -
  have u: "use_tor tor_conn" by (simp add: tor_conn_def AnonymousConnection_def)
  show ?thesis
    using u renew_delay_only_when_signalled [OF u, of "site_world site_get" fresh_process]
    by (simp add: site_world_def)
qed

text \<open>
  Claim C5 as stated fails: when the control port refuses the authentication, the call
  returns with no time slept.
\<close>

theorem renew_auth_failure_no_delay:
  "use_tor tor_conn
   \<and> slept (events (snd (renew_tor_identity
        ((site_world site_get)\<lparr>controller := (\<lambda>t pw. AuthFailed)\<rparr>) (tor_conn, fresh_process)))) = 0"
  by (simp add: renew_tor_identity_def tor_conn_def AnonymousConnection_def fresh_process_def
      site_world_def emit_def now_def)

section \<open>Falling back to a direct connection\<close>

text \<open>
  Claim C9. When the probe of the SOCKS port does not succeed and no launch is asked
  for, constructing the \<open>DocScoop\<close> object returns normally with \<open>use_tor\<close> off, the
  environment and the socket class untouched, and a session whose only header is the
  fixed browser identification; every session made later in the scan is the same.
\<close>

theorem unreachable_proxy_falls_back_to_direct:
  "connect_ex w (now p) \<noteq> Some 0 \<Longrightarrow>
     (\<exists>s. DocScoop w True False tp cp p = Inr s
        \<and> \<not> use_tor (anonymous_conn s)
        \<and> headers (session s) = [(''User-Agent'', direct_user_agent)]
        \<and> environ (proc s) = environ p
        \<and> socket_patched (proc s) = socket_patched p
        \<and> events (proc s) = events p @ [Probe, NewSession]
        \<and> headers (session (renew_and_get_session w s))
            = [(''User-Agent'', direct_user_agent)])"
  by (auto simp: DocScoop_def AnonymousConnection_def start_tor_def is_tor_running_def
      get_session_def renew_and_get_session_def renew_tor_identity_def Let_def emit_def
      split: option.splits)

theorem unreachable_proxy_falls_back_to_direct_witness:
  "connect_ex dead_world (now fresh_process) \<noteq> Some 0
   \<and> DocScoop dead_world True False 9050 9051 fresh_process = Inr fallback_scoop
   \<and> \<not> use_tor (anonymous_conn fallback_scoop)
   \<and> headers (session fallback_scoop) = [(''User-Agent'', direct_user_agent)]
   \<and> headers (session (renew_and_get_session dead_world fallback_scoop))
       = [(''User-Agent'', direct_user_agent)]"
proof -
  have h: "connect_ex dead_world (now fresh_process) \<noteq> Some 0"
    by (simp add: dead_world_def)
  show ?thesis
    using h unreachable_proxy_falls_back_to_direct [OF h, of 9050 9051] DocScoop_fallback
    by auto
qed

section \<open>The proxy environment\<close>

lemma restore_var_eq: "v \<noteq> Some [] \<Longrightarrow> restore_var k v env = env(k := v)"
  by (cases v) (simp_all add: restore_var_def)

text \<open>
  After a successful activation, \<open>stop_tor\<close> puts the two proxy variables back as they
  were, absent ones included, provided neither was set to the empty string.
\<close>

lemma stop_tor_restores_environ:
  assumes "use_tor c" "connect_ex w (now p) = Some 0"
    and "session_get w (Suc (now p)) ''https://www.google.com'' = Some r"
    and "environ p ''HTTP_PROXY'' \<noteq> Some []" "environ p ''HTTPS_PROXY'' \<noteq> Some []"
  shows "raised (start_tor w False (c, p)) = None"
    and "environ (snd (stop_tor (state_after (start_tor w False (c, p))))) = environ p"
  using assms
  by (auto simp: start_tor_def stop_tor_def configure_tor_for_requests_def is_tor_running_def
      raised_def state_after_def Let_def emit_def now_def restore_var_eq fun_eq_iff)

text \<open>
  Claim C4, at the two inputs where the code departs from it.

  First, \<^verbatim>\<open>HTTP_PROXY\<close> is \<^verbatim>\<open>http://corp:8080\<close> before activation, the SOCKS port
  answers and the connectivity check raises. The handler removes the variable instead
  of putting the saved value back, and \<^verbatim>\<open>AttributeError\<close> leaves \<open>start_tor\<close> with
  \<open>use_tor\<close> still set: at the end of the failed activation the variable is absent. The
  saved value returns only if \<open>stop_tor\<close> is called afterwards.

  Second, \<^verbatim>\<open>HTTP_PROXY\<close> is set to the empty string before an activation that
  succeeds. \<open>stop_tor\<close> tests the saved value by its truth, so it removes the variable
  instead of restoring it.
\<close>

theorem verification_failure_removes_previous_proxy:
  "environ corp_process ''HTTP_PROXY'' = Some ''http://corp:8080''
   \<and> raised (start_tor (site_world (\<lambda>t u. None)) False (tor_conn, corp_process))
       = Some AttributeError
   \<and> use_tor (fst (state_after
        (start_tor (site_world (\<lambda>t u. None)) False (tor_conn, corp_process))))
   \<and> previous_proxy (fst (state_after
        (start_tor (site_world (\<lambda>t u. None)) False (tor_conn, corp_process))))
       = Some (Some ''http://corp:8080'', None)
   \<and> environ (snd (state_after
        (start_tor (site_world (\<lambda>t u. None)) False (tor_conn, corp_process))))
        ''HTTP_PROXY'' = None
   \<and> environ (snd (stop_tor (state_after
        (start_tor (site_world (\<lambda>t u. None)) False (tor_conn, corp_process)))))
        ''HTTP_PROXY'' = Some ''http://corp:8080''
   \<and> environ blank_process ''HTTP_PROXY'' = Some []
   \<and> raised (start_tor (site_world (\<lambda>t u. Some ok_response)) False (tor_conn, blank_process))
       = None
   \<and> use_tor (fst (state_after
        (start_tor (site_world (\<lambda>t u. Some ok_response)) False (tor_conn, blank_process))))
   \<and> environ (snd (stop_tor (state_after
        (start_tor (site_world (\<lambda>t u. Some ok_response)) False (tor_conn, blank_process)))))
        ''HTTP_PROXY'' = None"
  by (simp add: start_tor_def stop_tor_def configure_tor_for_requests_def is_tor_running_def
      raised_def state_after_def restore_var_def Let_def emit_def now_def site_world_def
      tor_conn_def AnonymousConnection_def corp_process_def blank_process_def)

section \<open>Downloading a document\<close>

text \<open>
  Claim C10. When the request succeeds with status 200 and the URL's path has no
  extension, the temporary file's name ends in \<^verbatim>\<open>.pdf\<close>, \<^verbatim>\<open>.doc\<close> or \<^verbatim>\<open>.docx\<close>
  according to the first of the three document content types that the declared content
  type contains, and in \<^verbatim>\<open>.txt\<close> when it contains none of them.
\<close>

theorem suffix_from_content_type:
  "get_file_extension w url = [] \<Longrightarrow>
   session_get w (now (proc s)) url = Some r \<Longrightarrow> status_code r = 200 \<Longrightarrow>
     (\<exists>sfx. download_document w url (Suc stack) s
              = Inr (Some (temp_name w (now (proc s)) @ sfx), log_event (Download url) s)
        \<and> (str_in ''application/pdf'' (content_type r) \<longrightarrow> sfx = ''.pdf'')
        \<and> (\<not> str_in ''application/pdf'' (content_type r)
             \<and> str_in ''application/msword'' (content_type r) \<longrightarrow> sfx = ''.doc'')
        \<and> (\<not> str_in ''application/pdf'' (content_type r)
             \<and> \<not> str_in ''application/msword'' (content_type r)
             \<and> str_in ''application/vnd.openxmlformats'' (content_type r) \<longrightarrow> sfx = ''.docx'')
        \<and> (\<not> str_in ''application/pdf'' (content_type r)
             \<and> \<not> str_in ''application/msword'' (content_type r)
             \<and> \<not> str_in ''application/vnd.openxmlformats'' (content_type r) \<longrightarrow> sfx = ''.txt''))"
  by (simp add: download_suffix_def)

theorem suffix_from_content_type_witness:
  "get_file_extension (site_world (\<lambda>t u. Some \<lparr>status_code = 200, content_type = ''application/msword'', hrefs = []\<rparr>))
      ''http://a.com/download'' = []
   \<and> download_document
        (site_world (\<lambda>t u. Some \<lparr>status_code = 200, content_type = ''application/msword'', hrefs = []\<rparr>))
        ''http://a.com/download'' 1 plain_scoop
       = Inr (Some ''/tmp/tmpdoc.doc'', log_event (Download ''http://a.com/download'') plain_scoop)"
proof -
  let ?w = "site_world (\<lambda>t u. Some \<lparr>status_code = 200, content_type = ''application/msword'', hrefs = []\<rparr>)"
  have e: "get_file_extension ?w ''http://a.com/download'' = []"
    by (simp add: eval_defs)
  have g: "session_get ?w (now (proc plain_scoop)) ''http://a.com/download''
      = Some \<lparr>status_code = 200, content_type = ''application/msword'', hrefs = []\<rparr>"
    by (simp add: site_world_def)
  have c: "status_code \<lparr>status_code = 200, content_type = ''application/msword'', hrefs = []\<rparr> = 200"
    by simp
  show ?thesis
    using e suffix_from_content_type [OF e g c, of 0]
    by (auto simp: site_world_def)
qed

section \<open>A failed download\<close>

lemma anonymous_renew_and_get_session:
  "anonymous (renew_and_get_session w s) = anonymous s"
  by (simp add: renew_and_get_session_def Let_def)

lemma anonymous_log_event: "anonymous (log_event e s) = anonymous s"
  by (simp add: log_event_def)

text \<open>
  Without the flag \<open>anonymous\<close>, a request that raises ends the call with \<^verbatim>\<open>None\<close>
  after that one request.
\<close>

lemma download_failure_without_flag:
  "session_get w (now (proc s)) url = None \<Longrightarrow> \<not> anonymous s \<Longrightarrow>
     download_document w url (Suc stack) s = Inr (None, log_event (Download url) s)"
  by simp

text \<open>
  With the flag, the call is the call with one frame less, in the state \<open>s'\<close> whose log
  is that of \<open>s\<close> followed by the request and the events of the handler. The handler
  visits the control port only if the transport is in use; the flag itself is the
  constructor's argument and never changes.
\<close>

lemma download_retry_step:
  assumes "session_get w (now (proc s)) url = None" "anonymous s"
  shows "\<exists>s'. download_document w url (Suc stack) s = download_document w url stack s'
           \<and> events (proc s') = events (proc s) @ Download url # retry_events w s
           \<and> anonymous s'
           \<and> anonymous_conn s' = anonymous_conn s"
proof -
  let ?s' = "renew_and_get_session w (log_event (Download url) s)"
  have "download_document w url (Suc stack) s = download_document w url stack ?s'"
    using assms by simp
  moreover have "events (proc ?s') = events (proc s) @ Download url # retry_events w s"
    by (simp add: retry_events_def renew_and_get_session_def renew_tor_identity_def
        get_session_def log_event_def emit_def now_def Let_def split: control_reply.splits)
  moreover have "anonymous ?s'"
    using assms(2) by (simp add: anonymous_renew_and_get_session anonymous_log_event)
  moreover have "anonymous_conn ?s' = anonymous_conn s"
    by (simp add: renew_and_get_session_def renew_tor_identity_def log_event_def Let_def
        split: control_reply.splits)
  ultimately show ?thesis by blast
qed

text \<open>
  When every request for the URL raises and the flag is set, the call makes one request
  for each frame the stack allows and then \<^verbatim>\<open>RecursionError\<close> leaves it.
\<close>

lemma download_exhausts_stack:
  assumes "\<forall>t. session_get w t url = None" "anonymous s"
  shows "raised (download_document w url stack s) = Some RecursionError
       \<and> count_list (events (proc (scoop_after (download_document w url stack s)))) (Download url)
           = count_list (events (proc s)) (Download url) + stack"
  using assms(2)
proof (induction stack arbitrary: s)
  case 0
  then show ?case by (simp add: raised_def scoop_after_def)
next
  case (Suc stack)
  have f: "session_get w (now (proc s)) url = None" using assms(1) by simp
  obtain s' where s': "download_document w url (Suc stack) s = download_document w url stack s'"
    "events (proc s') = events (proc s) @ Download url # retry_events w s" "anonymous s'"
    using download_retry_step [OF f Suc.prems] by blast
  have "count_list (retry_events w s) (Download url) = 0"
    by (simp add: retry_events_def)
  then have "count_list (events (proc s')) (Download url)
      = Suc (count_list (events (proc s)) (Download url))"
    using s'(2) by simp
  then show ?case
    using Suc.IH [OF s'(3)] s'(1) by simp
qed

text \<open>
  Claim C7, at the input where the code departs from it. Tor was asked for and could
  not be reached, so the object works over a direct connection, while its flag
  \<open>anonymous\<close> is still set. A download whose request raises is then not ended with
  \<^verbatim>\<open>None\<close>: the handler, which has no identity to rotate, makes a session and calls
  again, and so on until the stack is used up (three frames here) and
  \<^verbatim>\<open>RecursionError\<close> leaves the call.
\<close>

theorem failed_download_after_fallback_retries:
  "DocScoop dead_world True False 9050 9051 fresh_process = Inr fallback_scoop
   \<and> \<not> use_tor (anonymous_conn fallback_scoop)
   \<and> session_get dead_world (now (proc fallback_scoop)) ''http://a.com/report.pdf'' = None
   \<and> raised (download_document dead_world ''http://a.com/report.pdf'' 3 fallback_scoop)
       = Some RecursionError
   \<and> new_events fallback_scoop
        (scoop_after (download_document dead_world ''http://a.com/report.pdf'' 3 fallback_scoop))
       = [Download ''http://a.com/report.pdf'', NewSession,
          Download ''http://a.com/report.pdf'', NewSession,
          Download ''http://a.com/report.pdf'', NewSession]"
proof -
  have "download_document dead_world ''http://a.com/report.pdf'' (Suc (Suc (Suc 0))) fallback_scoop
      = Inl (RecursionError,
          fallback_scoop\<lparr>proc := (proc fallback_scoop)\<lparr>events :=
            [Probe, NewSession,
             Download ''http://a.com/report.pdf'', NewSession,
             Download ''http://a.com/report.pdf'', NewSession,
             Download ''http://a.com/report.pdf'', NewSession]\<rparr>\<rparr>)"
    by (simp add: fallback_scoop_def dead_world_def site_world_def tor_conn_def
        AnonymousConnection_def renew_and_get_session_def renew_tor_identity_def
        get_session_def log_event_def emit_def now_def Let_def)
  then show ?thesis
    using DocScoop_fallback
    by (simp add: numeral_3_eq_3 raised_def scoop_after_def new_events_def fallback_scoop_def
        dead_world_def site_world_def tor_conn_def AnonymousConnection_def now_def)
qed

section \<open>A failed fetch at the top level\<close>

text \<open>
  When the request of \<open>crawl_page\<close> raises, the handler's call of \<open>crawl_page\<close> for
  the same URL returns at once, since the URL has been marked visited: the result is
  the state after the rotation and the new session, with no further request.
\<close>

lemma crawl_page_fetch_raises:
  assumes "depth \<le> max_depth" "is_valid_url w s url"
    and "session_get w (now (proc (mark_visited url s))) url = None"
  shows "crawl_page w url depth max_depth s =
     (if anonymous s \<and> depth \<le> 1
      then renew_and_get_session w (log_event (Fetched url) (mark_visited url s))
      else log_event (Fetched url) (mark_visited url s))"
proof -
  have "crawl_page w url depth max_depth
          (renew_and_get_session w (log_event (Fetched url) (mark_visited url s)))
        = renew_and_get_session w (log_event (Fetched url) (mark_visited url s))"
    by (rule crawl_page_visited)
       (simp add: renew_and_get_session_def Let_def log_event_def mark_visited_def)
  then show ?thesis
    using assms by (simp add: crawl_page.simps)
qed

text \<open>
  Claim C2, at the input where the code departs from it. Tor is active, the first
  request for \<^verbatim>\<open>http://a.com/report\<close> at depth 1 raises, and a request made after the
  rotation would return the PDF. The crawl marks the URL, makes that one request,
  rotates the identity once and creates a session; the URL is never requested a second
  time and the document set stays empty.
\<close>

theorem retry_after_rotation_fetches_nothing:
  "is_valid_url (site_world flaky_get) tor_scoop ''http://a.com/report''
   \<and> anonymous tor_scoop \<and> use_tor (anonymous_conn tor_scoop)
   \<and> session_get (site_world flaky_get) 4 ''http://a.com/report'' = None
   \<and> session_get (site_world flaky_get) 8 ''http://a.com/report''
       = Some \<lparr>status_code = 200, content_type = ''application/pdf'', hrefs = []\<rparr>
   \<and> new_events tor_scoop (crawl_page (site_world flaky_get) ''http://a.com/report'' 1 2 tor_scoop)
       = [Marked ''http://a.com/report'', Fetched ''http://a.com/report'',
          Control, Sleep 5, NewSession]
   \<and> document_urls (crawl_page (site_world flaky_get) ''http://a.com/report'' 1 2 tor_scoop) = {}"
proof -
  have v: "is_valid_url (site_world flaky_get) tor_scoop ''http://a.com/report''"
    by (simp add: tor_scoop_eq eval_defs)
  have g: "session_get (site_world flaky_get) (now (proc (mark_visited ''http://a.com/report'' tor_scoop)))
      ''http://a.com/report'' = None"
    by (simp add: tor_scoop_eq eval_defs flaky_get_def)
  have c: "crawl_page (site_world flaky_get) ''http://a.com/report'' 1 2 tor_scoop
      = renew_and_get_session (site_world flaky_get)
          (log_event (Fetched ''http://a.com/report'') (mark_visited ''http://a.com/report'' tor_scoop))"
    using crawl_page_fetch_raises [OF _ v g, of 1 2] by (simp add: tor_scoop_facts)
  show ?thesis
    unfolding c using v
    by (simp add: new_events_def tor_scoop_eq tor_conn_def AnonymousConnection_def eval_defs flaky_get_def)
qed

section \<open>The ignore list\<close>

lemma ignore_rel_refl: "ignore_rel w X s s"
  by (simp add: ignore_rel_def)

lemma ignore_rel_trans:
  "ignore_rel w X a b \<Longrightarrow> ignore_rel w Y b c \<Longrightarrow> ignore_rel w (X \<union> Y) a c"
  unfolding ignore_rel_def should_ignore_url_def by auto

lemma ignore_rel_drop:
  "\<not> should_ignore_url w s x \<Longrightarrow> ignore_rel w (insert x X) s s' \<Longrightarrow> ignore_rel w X s s'"
  unfolding ignore_rel_def by auto

lemma ignore_rel_fetch: "ignore_rel w {url} s (log_event (Fetched url) (mark_visited url s))"
  by (simp add: ignore_rel_def log_event_def mark_visited_def)

lemma ignore_rel_add_document: "ignore_rel w {u} s (add_document u s)"
  by (simp add: ignore_rel_def add_document_def)

lemma ignore_rel_renew: "ignore_rel w {} s (renew_and_get_session w s)"
  by (simp add: ignore_rel_def renew_and_get_session_def Let_def)

lemma ignore_rel_crawl:
  "ignore_rel w {url} s (crawl_page w url depth max_depth s)"
  "ignore_rel w {} s (crawl_links w url links depth max_depth s)"
proof (induction w url depth max_depth s and w url links depth max_depth s
    rule: crawl_page_crawl_links.induct)
  case (1 w url depth max_depth s)
  let ?s2 = "log_event (Fetched url) (mark_visited url s)"
  show ?case
  proof (cases "depth > max_depth \<or> \<not> is_valid_url w s url")
    case True
    then show ?thesis by (simp add: crawl_page.simps ignore_rel_refl)
  next
    case False
    have step: "ignore_rel w {url} s ?s2" by (rule ignore_rel_fetch)
    show ?thesis
    proof (cases "session_get w (now (proc (mark_visited url s))) url")
      case None
      have "ignore_rel w ({url} \<union> {}) s (renew_and_get_session w ?s2)"
        using step ignore_rel_renew by (rule ignore_rel_trans)
      then show ?thesis
        using False None step crawl_page_fetch_raises [of depth max_depth w s url]
        by simp
    next
      case (Some r)
      have "ignore_rel w ({url} \<union> {url}) s (add_document url ?s2)"
        using step ignore_rel_add_document by (rule ignore_rel_trans)
      moreover have "ignore_rel w ({url} \<union> {}) s (crawl_links w url (hrefs r) depth max_depth ?s2)"
        if "status_code r = 200" "\<not> (is_document_url w s url \<or> document_content_type (content_type r))"
           "str_in ''text/html'' (content_type r)"
      proof -
        have n: "\<not> status_code r \<noteq> 200" using that(1) by simp
        have "ignore_rel w {} ?s2 (crawl_links w url (hrefs r) depth max_depth ?s2)"
          by (rule "1.IH"(2)[OF False Some n that(2,3)])
        with step show ?thesis by (rule ignore_rel_trans)
      qed
      ultimately show ?thesis using False Some step
        by (simp add: crawl_page.simps)
    qed
  qed
next
  case (2 w url depth max_depth s)
  then show ?case by (simp add: ignore_rel_refl)
next
  case (3 w url href rest depth max_depth s)
  let ?n = "urljoin w url href"
  show ?case
  proof (cases "should_ignore_url w s ?n")
    case True
    then show ?thesis using "3.IH"(1) by simp
  next
    case ign: False
    show ?thesis
    proof (cases "is_document_url w s ?n")
      case True
      have "ignore_rel w {} s (add_document ?n s)"
        using ign ignore_rel_add_document by (rule ignore_rel_drop)
      moreover have "ignore_rel w {} (add_document ?n s)
          (crawl_links w url rest depth max_depth (add_document ?n s))"
        using ign True by (rule "3.IH"(2))
      ultimately have "ignore_rel w ({} \<union> {}) s
          (crawl_links w url rest depth max_depth (add_document ?n s))"
        by (rule ignore_rel_trans)
      then show ?thesis using ign True by simp
    next
      case doc: False
      show ?thesis
      proof (cases "depth < max_depth")
        case True
        let ?s1 = "crawl_page w ?n (depth + 1) max_depth s"
        have "ignore_rel w {?n} s ?s1" using ign doc True by (rule "3.IH"(3))
        with ign have "ignore_rel w {} s ?s1" by (rule ignore_rel_drop)
        moreover have "ignore_rel w {} ?s1 (crawl_links w url rest depth max_depth ?s1)"
          using ign doc True by (rule "3.IH"(4))
        ultimately have "ignore_rel w ({} \<union> {}) s (crawl_links w url rest depth max_depth ?s1)"
          by (rule ignore_rel_trans)
        then show ?thesis using ign doc True by simp
      next
        case False
        then show ?thesis using ign doc "3.IH"(5) by simp
      qed
    qed
  qed
qed

text \<open>
  Claim C6, as amended. A link whose resolved URL has an ignored extension is skipped,
  whether or not the extension is also a document extension. Hence processing the links
  of a page adds no URL with an ignored extension to the frontier or to the document
  set, and a call of \<open>crawl_page\<close> adds none but possibly its own URL, which is not
  checked against the ignore list.
\<close>

theorem ignored_links_are_skipped:
  "(should_ignore_url w s (urljoin w url href) \<longrightarrow>
      crawl_links w url (href # rest) depth max_depth s = crawl_links w url rest depth max_depth s)
   \<and> (\<forall>u \<in> visited_urls (crawl_links w url links depth max_depth s)
            \<union> document_urls (crawl_links w url links depth max_depth s).
        should_ignore_url w s u \<longrightarrow> u \<in> visited_urls s \<union> document_urls s)
   \<and> (\<forall>u \<in> visited_urls (crawl_page w url depth max_depth s)
            \<union> document_urls (crawl_page w url depth max_depth s).
        should_ignore_url w s u \<longrightarrow> u \<in> visited_urls s \<union> document_urls s \<or> u = url)"
  using ignore_rel_crawl(1) [of w url s depth max_depth]
    ignore_rel_crawl(2) [of w s url links depth max_depth]
  by (auto simp: ignore_rel_def)


lemma jpg_scoop_eq:
  "jpg_scoop = \<lparr>visited_urls = {}, document_urls = {}, anonymous = False,
      anonymous_conn = AnonymousConnection False 9050 9051 None, session = \<lparr>headers = []\<rparr>,
      document_extensions = DOCUMENT_EXTENSIONS @ [''.jpg''],
      ignore_extensions = IGNORE_EXTENSIONS, proc = fresh_process\<rparr>"
  by (simp add: jpg_scoop_def plain_scoop_eq)

theorem ignored_links_are_skipped_witness:
  "should_ignore_url (site_world site_get) jpg_scoop ''http://a.com/photo.jpg''
   \<and> is_document_url (site_world site_get) jpg_scoop ''http://a.com/photo.jpg''
   \<and> ''/photo.jpg'' \<in> set [''/report.pdf'', ''/photo.jpg'', ''/about'']
   \<and> ''http://a.com/photo.jpg'' \<notin>
        visited_urls (crawl_page (site_world site_get) ''http://a.com/'' 1 2 jpg_scoop)
   \<and> document_urls (crawl_page (site_world site_get) ''http://a.com/'' 1 2 jpg_scoop)
        = {''http://a.com/report.pdf''}"
proof -
  have ig: "should_ignore_url (site_world site_get) jpg_scoop ''http://a.com/photo.jpg''"
    by (simp add: jpg_scoop_eq eval_defs)
  have doc: "is_document_url (site_world site_get) jpg_scoop ''http://a.com/photo.jpg''"
    by (simp add: jpg_scoop_eq eval_defs)
  have ne: "''http://a.com/photo.jpg'' \<noteq> ''http://a.com/''" by simp
  have init: "''http://a.com/photo.jpg'' \<notin> visited_urls jpg_scoop \<union> document_urls jpg_scoop"
    by (simp add: jpg_scoop_eq)
  have docs: "document_urls (crawl_page (site_world site_get) ''http://a.com/'' 1 2 jpg_scoop)
        = {''http://a.com/report.pdf''}"
    by (simp add: jpg_scoop_eq fresh_process_def crawl_page.simps eval_defs)
  have "''http://a.com/photo.jpg'' \<notin>
        visited_urls (crawl_page (site_world site_get) ''http://a.com/'' 1 2 jpg_scoop)
        \<union> document_urls (crawl_page (site_world site_get) ''http://a.com/'' 1 2 jpg_scoop)"
    using ig ne init
      ignored_links_are_skipped [of "site_world site_get" jpg_scoop "''http://a.com/''" "''/''" "[]" 1 2 "[]"]
    by blast
  then show ?thesis using ig doc docs by simp
qed

text \<open>
  Claim C6 as stated fails for the URL the crawl starts from: with \<^verbatim>\<open>.jpg\<close> in both
  lists, the start URL \<^verbatim>\<open>http://a.com/photo.jpg\<close> enters the frontier and the document
  set.
\<close>

theorem ignored_seed_becomes_document:
  "should_ignore_url (site_world (\<lambda>t u. Some ok_response)) jpg_scoop ''http://a.com/photo.jpg''
   \<and> ''http://a.com/photo.jpg'' \<notin> visited_urls jpg_scoop
   \<and> ''http://a.com/photo.jpg'' \<notin> document_urls jpg_scoop
   \<and> ''http://a.com/photo.jpg'' \<in> visited_urls
        (crawl_page (site_world (\<lambda>t u. Some ok_response)) ''http://a.com/photo.jpg'' 1 2 jpg_scoop)
   \<and> ''http://a.com/photo.jpg'' \<in> document_urls
        (crawl_page (site_world (\<lambda>t u. Some ok_response)) ''http://a.com/photo.jpg'' 1 2 jpg_scoop)"
  by (simp add: jpg_scoop_eq fresh_process_def crawl_page.simps eval_defs ok_response_def)

section \<open>The deduplication key\<close>

lemma crawl_rel_fetches:
  assumes "crawl_rel s s'"
  shows "distinct (fetches (new_events s s'))"
    and "set (fetches (new_events s s')) \<inter> visited_urls s = {}"
    and "set (fetches (new_events s s')) \<subseteq> visited_urls s'"
proof -
  from assms obtain new where new: "events (proc s') = events (proc s) @ new"
    "paired (visited_urls s) new" "visited_urls s' = visited_urls s \<union> set (marks new)"
    by (auto simp: crawl_rel_def)
  have n: "new_events s s' = new" using new(1) by (simp add: new_events_def)
  show "distinct (fetches (new_events s s'))"
    using new(2) by (simp add: n paired_fetches paired_distinct)
  show "set (fetches (new_events s s')) \<inter> visited_urls s = {}"
    using new(2) by (simp add: n paired_fetches paired_fresh)
  show "set (fetches (new_events s s')) \<subseteq> visited_urls s'"
    using new(2,3) by (auto simp: n paired_fetches)
qed

text \<open>
  A call of \<open>crawl_page\<close> for a well-formed URL that is not in the frontier, within
  the depth bound, marks and requests that URL before anything else.
\<close>

lemma crawl_page_requests_fresh_url:
  assumes "depth \<le> max_depth" "is_valid_url w s url"
  shows "\<exists>rest. new_events s (crawl_page w url depth max_depth s)
           = Marked url # Fetched url # rest"
proof -
  let ?s2 = "log_event (Fetched url) (mark_visited url s)"
  have "crawl_rel ?s2 (crawl_page w url depth max_depth s)"
  proof (cases "session_get w (now (proc (mark_visited url s))) url")
    case None
    then show ?thesis
      using assms crawl_page_fetch_raises [OF assms None]
      by (simp add: crawl_rel_refl crawl_rel_renew)
  next
    case (Some r)
    have "crawl_rel ?s2 (crawl_links w url (hrefs r) depth max_depth ?s2)"
      by (rule crawl_rel_crawl)
    then show ?thesis
      using assms Some by (simp add: crawl_page.simps crawl_rel_refl crawl_rel_add_document)
  qed
  then obtain new where
    "events (proc (crawl_page w url depth max_depth s)) = events (proc ?s2) @ new"
    by (auto simp: crawl_rel_def)
  then have "new_events s (crawl_page w url depth max_depth s) = Marked url # Fetched url # new"
    by (simp add: new_events_def log_event_def mark_visited_def emit_def)
  then show ?thesis by blast
qed

text \<open>
  Claim C8, as amended. The key of the frontier is the URL string itself: the start
  URL as it was given and, for a link, the string that \<^verbatim>\<open>urljoin\<close> returns. Nothing
  normalizes it further. A string that is in the frontier is not crawled again, and
  over the links of one page followed by the links of another no string is requested
  twice; but a well-formed URL whose string is not in the frontier is requested,
  whatever other spellings of the same resource the frontier holds.
\<close>

theorem dedup_key_is_exact_string:
  "(u \<in> visited_urls s \<longrightarrow> \<not> is_valid_url w s u \<and> crawl_page w u d m s = s)
   \<and> distinct (fetches (new_events s
        (crawl_links w b2 l2 d2 m2 (crawl_links w b1 l1 d1 m1 s))))
   \<and> (u \<notin> visited_urls s \<and> netloc (urlparse w u) \<noteq> [] \<and> scheme (urlparse w u) \<noteq> []
        \<and> d \<le> m \<longrightarrow>
      u \<in> set (fetches (new_events s (crawl_page w u d m s))))"
proof -
  define s1 where "s1 = crawl_links w b1 l1 d1 m1 s"
  define s2 where "s2 = crawl_links w b2 l2 d2 m2 s1"
  have r1: "crawl_rel s s1" unfolding s1_def by (rule crawl_rel_crawl)
  have r2: "crawl_rel s1 s2" unfolding s2_def by (rule crawl_rel_crawl)
  have "crawl_rel s s2" using r1 r2 by (rule crawl_rel_trans)
  then have b: "distinct (fetches (new_events s s2))" by (rule crawl_rel_fetches)
  have a: "u \<in> visited_urls s \<longrightarrow> \<not> is_valid_url w s u \<and> crawl_page w u d m s = s"
    by (simp add: is_valid_url_def crawl_page_visited)
  have c: "u \<in> set (fetches (new_events s (crawl_page w u d m s)))"
    if "u \<notin> visited_urls s" "netloc (urlparse w u) \<noteq> []" "scheme (urlparse w u) \<noteq> []" "d \<le> m"
  proof -
    have "is_valid_url w s u" using that by (simp add: is_valid_url_def)
    with that(4) obtain rest where
      "new_events s (crawl_page w u d m s) = Marked u # Fetched u # rest"
      using crawl_page_requests_fresh_url by blast
    then show ?thesis by simp
  qed
  show ?thesis using a b c unfolding s2_def s1_def by blast
qed

theorem dedup_key_is_exact_string_witness:
  "''http://a.com/'' \<notin> visited_urls (mark_visited ''http://a.com'' plain_scoop)
   \<and> ''http://a.com'' \<in> visited_urls (mark_visited ''http://a.com'' plain_scoop)
   \<and> crawl_page (site_world root_get) ''http://a.com'' 1 2 (mark_visited ''http://a.com'' plain_scoop)
       = mark_visited ''http://a.com'' plain_scoop
   \<and> ''http://a.com/'' \<in> set (fetches (new_events (mark_visited ''http://a.com'' plain_scoop)
        (crawl_page (site_world root_get) ''http://a.com/'' 1 2
          (mark_visited ''http://a.com'' plain_scoop))))"
proof -
  let ?s = "mark_visited ''http://a.com'' plain_scoop"
  have v: "visited_urls ?s = {''http://a.com''}"
    by (simp add: mark_visited_def plain_scoop_def)
  have p: "netloc (urlparse (site_world root_get) ''http://a.com/'') \<noteq> []"
    "scheme (urlparse (site_world root_get) ''http://a.com/'') \<noteq> []"
    by (simp_all add: site_world_def site_urlparse_def)
  show ?thesis
    using v p
      dedup_key_is_exact_string [where s = ?s and w = "site_world root_get"
        and u = "''http://a.com''" and d = 1 and m = 2]
      dedup_key_is_exact_string [where s = ?s and w = "site_world root_get"
        and u = "''http://a.com/''" and d = 1 and m = 2]
    by simp
qed

text \<open>
  Claim C8 as stated fails. \<^verbatim>\<open>http://a.com\<close> and \<^verbatim>\<open>http://a.com/\<close> have the same
  scheme and host and the paths \<^verbatim>\<open>''\<close> and \<^verbatim>\<open>/\<close>, which name the same resource. The
  crawl started on the first finds the link \<^verbatim>\<open>/\<close>, which \<^verbatim>\<open>urljoin\<close> resolves to the
  second, and requests both.
\<close>

theorem same_page_two_spellings_fetched_twice:
  "urlparse (site_world root_get) ''http://a.com''
     = \<lparr>scheme = ''http'', netloc = ''a.com'', path = []\<rparr>
   \<and> urlparse (site_world root_get) ''http://a.com/''
     = \<lparr>scheme = ''http'', netloc = ''a.com'', path = ''/''\<rparr>
   \<and> urljoin (site_world root_get) ''http://a.com'' ''/'' = ''http://a.com/''
   \<and> fetches (new_events plain_scoop
        (crawl_page (site_world root_get) ''http://a.com'' 1 2 plain_scoop))
       = [''http://a.com'', ''http://a.com/'']"
  by (simp add: new_events_def plain_scoop_eq fresh_process_def crawl_page.simps eval_defs
      root_get_def)

end
